theory Spec2Isabelle
  imports Main
begin

section \<open>Strings\<close>

text \<open>
  A Python \<open>str\<close> is modelled as a \<open>string\<close> whose characters stand for the code
  points below 256. \<open>isspace\<close> lists the code points in that range that Python's
  \<open>str.isspace\<close> accepts: tab, line feed, vertical tab, form feed, carriage return, the
  four separators 0x1C to 0x1F, space, NEL (0x85) and the no-break space (0xA0).
  \<open>strip\<close> is \<open>str.strip()\<close> without argument: it removes the leading and the trailing
  whitespace.
\<close>

definition isspace :: "char \<Rightarrow> bool" where
  "isspace c = (c \<in> set [CHR 0x09, CHR 0x0A, CHR 0x0B, CHR 0x0C, CHR 0x0D,
                         CHR 0x1C, CHR 0x1D, CHR 0x1E, CHR 0x1F, CHR 0x20,
                         CHR 0x85, CHR 0xA0])"

definition strip :: "string \<Rightarrow> string" where
  "strip s = rev (dropWhile isspace (rev (dropWhile isspace s)))"

text \<open>\<open>sep.join(xs)\<close> of Python.\<close>

fun join :: "string \<Rightarrow> string list \<Rightarrow> string" where
  "join sep [] = []"
| "join sep [x] = x"
| "join sep (x # y # xs) = x @ sep @ join sep (y # xs)"

section \<open>The data frame\<close>

text \<open>
  A cell of the frame that \<open>pd.read_excel\<close> returns is missing (\<open>NaN\<close>), a Python
  string, or a value of another type (a number, a boolean, a timestamp); for the last
  the model keeps the text that \<open>str(v)\<close> gives, which is all the parser reads of it.
\<close>

datatype cell = NaN | Str string | Other string

fun py_str :: "cell \<Rightarrow> string" where
  "py_str NaN = ''nan''"
| "py_str (Str s) = s"
| "py_str (Other s) = s"

definition isna :: "cell \<Rightarrow> bool" where
  "isna v = (v = NaN)"

definition notna :: "cell \<Rightarrow> bool" where
  "notna v = (v \<noteq> NaN)"

text \<open>\<open>isinstance(v, str)\<close>.\<close>

fun is_str :: "cell \<Rightarrow> bool" where
  "is_str (Str s) = True"
| "is_str v = False"

text \<open>
  The frame after \<open>reset_index(drop=True)\<close>: \<open>df_ncols\<close> is \<open>df.shape[1]\<close>, \<open>df_rows\<close>
  holds the rows \<open>0 .. len(df) - 1\<close>. Column labels are unique in a frame read from a
  sheet, so a column is addressed by its position. A frame is rectangular and
  pandas fills the places a sheet leaves out with \<open>NaN\<close>: a row list shorter than
  \<open>df_ncols\<close> reads as \<open>NaN\<close> beyond its end. The parser reads \<open>df.at[i, c]\<close> only
  at rows \<open>i < len(df)\<close>.
\<close>

record dataframe =
  df_ncols :: nat
  df_rows :: "cell list list"

definition df_at :: "dataframe \<Rightarrow> nat \<Rightarrow> nat \<Rightarrow> cell" where
  "df_at df i c = (let r = df_rows df ! i in if c < length r then r ! c else NaN)"

text \<open>\<open>df.loc[i].tolist()\<close>.\<close>

definition row_values :: "dataframe \<Rightarrow> nat \<Rightarrow> cell list" where
  "row_values df i = map (df_at df i) [0..<df_ncols df]"

section \<open>Configuration\<close>

definition TARGET_WITH_ABBREVIATION :: "string set" where
  "TARGET_WITH_ABBREVIATION =
     {''Frame Version'', ''Core Version'', ''Gasket Version'', ''Pump''}"

definition SECOND_BLANK_STOP :: "string set" where
  "SECOND_BLANK_STOP = {''Frame Version'', ''Core Version'', ''Gasket Version''}"

definition FIRST_BLANK_STOP :: "string set" where
  "FIRST_BLANK_STOP = {''Device Name'', ''Coolant'', ''Pump''}"

definition TARGET_WITHOUT_ABBREVIATION :: "string set" where
  "TARGET_WITHOUT_ABBREVIATION = {''Device Name'', ''Coolant''}"

definition SKIP :: "string set" where
  "SKIP = {''OCCT Version'', ''OCCT Test Setting'', ''Fan Settings'', ''CPU model''}"

definition candidates :: "string set" where
  "candidates = {''Abbreviation'', ''Abbrevation''}"

section \<open>The legend parser\<close>

text \<open>
  The two \<open>ValueError\<close>s of \<open>read_legend\<close>: "Sheet must have at least two columns
  (A and B)." and "No 'Abbreviation' column found in row i.", the second with the
  row index its message prints.
\<close>

datatype error = TooFewColumns | NoAbbreviationColumn nat

text \<open>
  The result \<open>dict[str, list[str]]\<close> keeps insertion order: it is an association list
  with distinct keys, and \<open>results[k] = v\<close> replaces the value of a key already there,
  in place, or appends a new entry.
\<close>

type_synonym legend = "(string \<times> string list) list"

fun dict_set :: "legend \<Rightarrow> string \<Rightarrow> string list \<Rightarrow> legend" where
  "dict_set [] k v = [(k, v)]"
| "dict_set ((k', v') # d) k v =
     (if k' = k then (k, v) # d else (k', v') # dict_set d k v)"

text \<open>
  The generator handed to \<open>next(..., None)\<close>: the index of the first cell of the
  marker row that is a string and whose stripped text is one of the two spellings.
\<close>

definition is_candidate :: "cell \<Rightarrow> bool" where
  "is_candidate v = (is_str v \<and> strip (py_str v) \<in> candidates)"

definition abbrev_index :: "cell list \<Rightarrow> nat option" where
  "abbrev_index vs =
     map_option fst (find (\<lambda>(idx, v). is_candidate v) (enumerate 0 vs))"

text \<open>The "choose column" block: the column the values of the category are read from.\<close>

definition choose_column :: "dataframe \<Rightarrow> nat \<Rightarrow> string \<Rightarrow> error + nat" where
  "choose_column df i current_cat =
     (if current_cat \<in> TARGET_WITH_ABBREVIATION then
        (case abbrev_index (row_values df i) of
           None \<Rightarrow> Inl (NoAbbreviationColumn i)
         | Some k \<Rightarrow> Inr k)
      else Inr 1)"

text \<open>
  The inner \<open>while j < n\<close> loop, with its three variables \<open>vals\<close>, \<open>blank_seen\<close> and
  \<open>j\<close>; it returns \<open>vals\<close> and the \<open>j\<close> the loop ends with.
\<close>

function scan_run ::
  "dataframe \<Rightarrow> nat \<Rightarrow> string \<Rightarrow> string list \<Rightarrow> nat \<Rightarrow> nat \<Rightarrow> string list \<times> nat" where
  "scan_run df use_col current_cat vals blank_seen j =
     (if j < length (df_rows df) then
        (let v = df_at df j use_col in
         if isna v \<or> strip (py_str v) = [] then
           (let blank_seen' = blank_seen + 1 in
            if (blank_seen' = 2 \<and> current_cat \<in> SECOND_BLANK_STOP)
               \<or> current_cat \<in> FIRST_BLANK_STOP
            then (vals, j)
            else scan_run df use_col current_cat vals blank_seen' (j + 1))
         else scan_run df use_col current_cat
                (if v \<noteq> Str ''?'' then vals @ [strip (py_str v)] else vals)
                blank_seen (j + 1))
      else (vals, j))"
  by pat_completeness auto
termination
  by (relation "measure (\<lambda>(df, use_col, current_cat, vals, blank_seen, j).
        length (df_rows df) - j)") auto

declare scan_run.simps [simp del]

text \<open>The normalised key cell: \<open>str(cell).strip() if pd.notna(cell) else ""\<close>.\<close>

definition cell_str :: "cell \<Rightarrow> string" where
  "cell_str cell = (if notna cell then strip (py_str cell) else [])"

text \<open>
  One pass through the body of the outer \<open>while i < n\<close> loop at row \<open>i\<close>: the error
  raised, or the new \<open>i\<close> and \<open>results\<close>.
\<close>

definition loop_body :: "dataframe \<Rightarrow> nat \<Rightarrow> legend \<Rightarrow> error + (nat \<times> legend)" where
  "loop_body df i results =
     (let current_cat = cell_str (df_at df i 1)
      in if current_cat \<in> TARGET_WITH_ABBREVIATION \<union> TARGET_WITHOUT_ABBREVIATION then
           (case choose_column df i current_cat of
              Inl e \<Rightarrow> Inl e
            | Inr use_col \<Rightarrow>
                (case scan_run df use_col current_cat [] 0 (i + 1) of
                   (vals, j) \<Rightarrow> Inr (j, dict_set results current_cat vals)))
         else if current_cat \<in> SKIP then Inr (i + 1, results)
         else Inr (i + 1, results))"

text \<open>
  The outer loop. The cursor \<open>i\<close> is set by the body, not counted up, so the loop is
  defined as a partial function: \<open>None\<close> would be a run that never returns.
\<close>

partial_function (option) read_loop ::
  "dataframe \<Rightarrow> nat \<Rightarrow> legend \<Rightarrow> (error + legend) option" where
  "read_loop df i results =
     (if i < length (df_rows df) then
        (case loop_body df i results of
           Inl e \<Rightarrow> Some (Inl e)
         | Inr (i', results') \<Rightarrow> read_loop df i' results')
      else Some (Inr results))"

declare read_loop.simps [code]

text \<open>\<open>read_legend\<close>, from the frame on (reading the file is outside the model).\<close>

definition read_legend :: "dataframe \<Rightarrow> (error + legend) option" where
  "read_legend df =
     (if df_ncols df < 2 then Some (Inl TooFewColumns) else read_loop df 0 [])"

section \<open>The folder namer\<close>

text \<open>The \<open>folder_name\<close> of \<open>create_folder\<close>; joining it to \<open>base_dir\<close> and creating the
  directory are effects on the file system, outside the model.\<close>

definition folder_name :: "string list \<Rightarrow> string \<Rightarrow> string \<Rightarrow> string" where
  "folder_name selections time_str server_str =
     join ''_'' (selections @ [strip time_str, strip server_str])"

section \<open>Notions used to state the properties\<close>

text \<open>The blank test of the inner loop: \<open>pd.isna(v) or str(v).strip() == ""\<close>.\<close>

definition is_blank :: "cell \<Rightarrow> bool" where
  "is_blank v = (isna v \<or> strip (py_str v) = [])"

text \<open>The key column (index 1), in row order.\<close>

definition key_column :: "dataframe \<Rightarrow> cell list" where
  "key_column df = map (\<lambda>i. df_at df i 1) [0..<length (df_rows df)]"

text \<open>The cells of column \<open>c\<close> in the rows \<open>a, ..., b - 1\<close>.\<close>

definition column_cells :: "dataframe \<Rightarrow> nat \<Rightarrow> nat \<Rightarrow> nat \<Rightarrow> cell list" where
  "column_cells df c a b = map (\<lambda>j. df_at df j c) [a..<b]"

text \<open>
  What a run keeps of the cells it passes: the cells that are not blank and whose value
  is not the string \<open>"?"\<close> (the comparison \<open>v != "?"\<close> is on the value as read),
  each as its stripped text.
\<close>

definition kept :: "cell list \<Rightarrow> string list" where
  "kept vs =
     map (\<lambda>v. strip (py_str v)) (filter (\<lambda>v. \<not> is_blank v \<and> v \<noteq> Str ''?'') vs)"

text \<open>The number of blank cells of column \<open>c\<close> in the rows \<open>a, ..., b - 1\<close>.\<close>

definition blank_count :: "dataframe \<Rightarrow> nat \<Rightarrow> nat \<Rightarrow> nat \<Rightarrow> nat" where
  "blank_count df c a b = length (filter is_blank (column_cells df c a b))"


section \<open>Example tables\<close>

text \<open>The legend of the scenario: the key column is the second column, the first is unused.\<close>

definition legend_table :: dataframe where
  "legend_table = \<lparr>df_ncols = 2, df_rows =
     [[NaN, Str ''Device Name''], [NaN, Str ''Alpha''], [NaN, NaN], [NaN, Str ''Coolant''],
      [NaN, Str ''X''], [NaN, Str ''?''], [NaN, Str ''Y''], [NaN, Str '''']]\<rparr>"

text \<open>A sheet with a single column.\<close>

definition one_column_table :: dataframe where
  "one_column_table = \<lparr>df_ncols = 1, df_rows = [[Str ''Device Name''], [Str ''Alpha'']]\<rparr>"

text \<open>A run whose only value is a question mark typed with a leading space.\<close>

definition padded_placeholder_table :: dataframe where
  "padded_placeholder_table = \<lparr>df_ncols = 2, df_rows =
     [[NaN, Str ''Device Name''], [NaN, Str '' ?''], [NaN, NaN]]\<rparr>"

text \<open>
  A legend with two categories that read their values from the abbreviation column: a
  second-blank-stop run with a blank between its values, and a first-blank-stop run that
  reaches the end of the table.
\<close>

definition abbreviation_table :: dataframe where
  "abbreviation_table = \<lparr>df_ncols = 4, df_rows =
     [[NaN, Str ''Frame Version'', Str ''Name'', Str ''Abbrevation ''],
      [NaN, NaN, Str ''Frame one'', Str ''F1''],
      [NaN, NaN, NaN, NaN],
      [NaN, NaN, Str ''Frame two'', Str ''F2''],
      [NaN, NaN, NaN, NaN],
      [NaN, Str ''Pump'', Str ''Name'', Str ''Abbreviation''],
      [NaN, NaN, Str ''Pump A'', Str ''PA''],
      [NaN, NaN, NaN, Str ''?''],
      [NaN, NaN, NaN, Str ''PB'']]\<rparr>"


text \<open>A second-blank-stop run with a single blank: it goes on to the end of the table.\<close>

definition single_blank_table :: dataframe where
  "single_blank_table = \<lparr>df_ncols = 3, df_rows =
     [[NaN, Str ''Core Version'', Str ''Abbreviation''],
      [NaN, NaN, Str ''C1''],
      [NaN, NaN, NaN],
      [NaN, NaN, Str ''C2''],
      [NaN, NaN, Str ''C3'']]\<rparr>"



text \<open>A first-blank-stop run with a question mark typed before a space among its values.\<close>

definition padded_coolant_table :: dataframe where
  "padded_coolant_table = \<lparr>df_ncols = 2, df_rows =
     [[NaN, Str ''Coolant''], [NaN, Str ''X''], [NaN, Str ''? ''], [NaN, Str ''Y''],
      [NaN, NaN], [NaN, Str ''Z'']]\<rparr>"


section \<open>The inner scan\<close>

lemma column_cells_Cons:
  "a < b \<Longrightarrow> column_cells df c a b = df_at df a c # column_cells df c (Suc a) b"
  by (simp add: column_cells_def upt_conv_Cons)

lemma column_cells_Nil: "b \<le> a \<Longrightarrow> column_cells df c a b = []"
  by (simp add: column_cells_def)

lemma kept_Cons:
  "kept (v # vs) = (if is_blank v \<or> v = Str ''?'' then kept vs else strip (py_str v) # kept vs)"
  by (simp add: kept_def)

lemma kept_Nil: "kept [] = []"
  by (simp add: kept_def)

lemma scan_run_first:
  "current_cat \<in> FIRST_BLANK_STOP \<Longrightarrow>
   scan_run df c current_cat vals b j =
     (vals @ kept (takeWhile (\<lambda>v. \<not> is_blank v) (column_cells df c j (length (df_rows df)))),
      j + length (takeWhile (\<lambda>v. \<not> is_blank v) (column_cells df c j (length (df_rows df)))))"
proof (induction df c current_cat vals b j rule: scan_run.induct)
  case (1 df c cat vals b j)
  show ?case
  proof (cases "j < length (df_rows df)")
    case False
    then show ?thesis
      by (subst scan_run.simps) (simp add: column_cells_Nil kept_Nil)
  next
    case True
    show ?thesis
    proof (cases "is_blank (df_at df j c)")
      case True
      with \<open>j < length (df_rows df)\<close> "1.prems" show ?thesis
        by (subst scan_run.simps) (simp add: column_cells_Cons kept_Nil is_blank_def)
    next
      case False
      with \<open>j < length (df_rows df)\<close> "1.prems" "1.IH"(2) [OF _ refl] show ?thesis
        by (subst scan_run.simps) (simp add: column_cells_Cons kept_Cons is_blank_def)
    qed
  qed
qed


lemma second_not_first: "cat \<in> SECOND_BLANK_STOP \<Longrightarrow> cat \<notin> FIRST_BLANK_STOP"
  by (auto simp: SECOND_BLANK_STOP_def FIRST_BLANK_STOP_def)

lemma scan_run_unfold:
  "scan_run df c cat vals b j =
     (if j < length (df_rows df) then
        if is_blank (df_at df j c) then
          if (b = 1 \<and> cat \<in> SECOND_BLANK_STOP) \<or> cat \<in> FIRST_BLANK_STOP then (vals, j)
          else scan_run df c cat vals (Suc b) (Suc j)
        else scan_run df c cat
               (if df_at df j c \<noteq> Str ''?'' then vals @ [strip (py_str (df_at df j c))] else vals)
               b (Suc j)
      else (vals, j))"
  by (subst scan_run.simps) (simp add: Let_def is_blank_def)

lemma scan_run_cases_induct:
  assumes step: "\<And>df c cat vals b j.
    (j < length (df_rows df) \<Longrightarrow> is_blank (df_at df j c) \<Longrightarrow>
       \<not> ((b = 1 \<and> cat \<in> SECOND_BLANK_STOP) \<or> cat \<in> FIRST_BLANK_STOP) \<Longrightarrow>
       P df c cat vals (Suc b) (Suc j)) \<Longrightarrow>
    (j < length (df_rows df) \<Longrightarrow> \<not> is_blank (df_at df j c) \<Longrightarrow>
       P df c cat
         (if df_at df j c \<noteq> Str ''?'' then vals @ [strip (py_str (df_at df j c))] else vals)
         b (Suc j)) \<Longrightarrow>
    P df c cat vals b j"
  shows "P df c cat vals b j"
proof (induction df c cat vals b j rule: scan_run.induct)
  case (1 df c cat vals b j)
  show ?case
  proof (rule step)
    assume "j < length (df_rows df)" "is_blank (df_at df j c)"
      "\<not> ((b = 1 \<and> cat \<in> SECOND_BLANK_STOP) \<or> cat \<in> FIRST_BLANK_STOP)"
    then show "P df c cat vals (Suc b) (Suc j)"
      using "1.IH"(1) [OF _ refl _ refl] by (simp add: is_blank_def)
  next
    assume "j < length (df_rows df)" "\<not> is_blank (df_at df j c)"
    then show "P df c cat
         (if df_at df j c \<noteq> Str ''?'' then vals @ [strip (py_str (df_at df j c))] else vals)
         b (Suc j)"
      using "1.IH"(2) [OF _ refl] by (simp add: is_blank_def)
  qed
qed


lemma blank_count_Cons:
  "a < b \<Longrightarrow> blank_count df c a b =
     (if is_blank (df_at df a c) then Suc (blank_count df c (Suc a) b)
      else blank_count df c (Suc a) b)"
  by (simp add: blank_count_def column_cells_Cons)

lemma blank_count_Nil: "b \<le> a \<Longrightarrow> blank_count df c a b = 0"
  by (simp add: blank_count_def column_cells_Nil)

lemma scan_run_second:
  "cat \<in> SECOND_BLANK_STOP \<Longrightarrow> b \<le> 1 \<Longrightarrow> j0 \<le> length (df_rows df) \<Longrightarrow>
    scan_run df c cat vals b j0 = (vals', j) \<Longrightarrow>
    j0 \<le> j \<and> j \<le> length (df_rows df) \<and>
    vals' = vals @ kept (column_cells df c j0 j) \<and>
    (if j < length (df_rows df)
     then is_blank (df_at df j c) \<and> b + blank_count df c j0 j = 1
     else b + blank_count df c j0 j \<le> 1)"
proof (induction df c cat vals b j0 arbitrary: vals' j rule: scan_run_cases_induct)
  case (1 df c cat vals b j0)
  note nf = second_not_first [OF "1.prems"(1)]
  note run = "1.prems"(4)
  show ?case
  proof (cases "j0 < length (df_rows df)")
    case False
    with "1.prems"(2,3) run show ?thesis
      by (subst (asm) scan_run_unfold)
        (auto simp: column_cells_Nil kept_Nil blank_count_Nil)
  next
    case lt: True
    show ?thesis
    proof (cases "is_blank (df_at df j0 c)")
      case bl: True
      show ?thesis
      proof (cases "b = 1")
        case True
        with lt bl run "1.prems"(1) show ?thesis
          by (subst (asm) scan_run_unfold)
            (auto simp: column_cells_Nil kept_Nil blank_count_Nil)
      next
        case False
        with "1.prems"(2) have b0: "b = 0" by simp
        from lt bl b0 run nf
        have rec: "scan_run df c cat vals (Suc 0) (Suc j0) = (vals', j)"
          by (subst (asm) scan_run_unfold) simp
        have ih: "Suc j0 \<le> j \<and> j \<le> length (df_rows df) \<and>
            vals' = vals @ kept (column_cells df c (Suc j0) j) \<and>
            (if j < length (df_rows df)
             then is_blank (df_at df j c) \<and> Suc 0 + blank_count df c (Suc j0) j = 1
             else Suc 0 + blank_count df c (Suc j0) j \<le> 1)"
          using "1.IH"(1) [OF lt bl _ "1.prems"(1), of vals' j] lt b0 nf rec
          by (auto split: if_splits)
        then have "j0 < j" by simp
        with ih bl b0 show ?thesis
          by (auto simp: column_cells_Cons kept_Cons blank_count_Cons split: if_splits)
      qed
    next
      case nb: False
      let ?vals = "if df_at df j0 c \<noteq> Str ''?''
                   then vals @ [strip (py_str (df_at df j0 c))] else vals"
      from lt nb run
      have rec: "scan_run df c cat ?vals b (Suc j0) = (vals', j)"
        by (subst (asm) scan_run_unfold) simp
      have ih: "Suc j0 \<le> j \<and> j \<le> length (df_rows df) \<and>
            vals' = ?vals @ kept (column_cells df c (Suc j0) j) \<and>
            (if j < length (df_rows df)
             then is_blank (df_at df j c) \<and> b + blank_count df c (Suc j0) j = 1
             else b + blank_count df c (Suc j0) j \<le> 1)"
        using "1.IH"(2) [OF lt nb "1.prems"(1,2), of vals' j] lt rec
        by (auto split: if_splits)
      then have "j0 < j" by simp
      with ih nb show ?thesis
        by (auto simp: column_cells_Cons kept_Cons blank_count_Cons split: if_splits)
    qed
  qed
qed

section \<open>The outer loop\<close>




lemma join_snoc2:
  "join sep (xs @ [a, b]) = concat (map (\<lambda>x. x @ sep) xs) @ a @ sep @ b"
  by (induction sep xs rule: join.induct) simp_all

lemma read_loop_step:
  "i < length (df_rows df) \<Longrightarrow> loop_body df i results = Inr (i', results') \<Longrightarrow>
   read_loop df i results = read_loop df i' results'"
  by (subst read_loop.simps) simp


lemma read_loop_done:
  "length (df_rows df) \<le> i \<Longrightarrow> read_loop df i results = Some (Inr results)"
  by (subst read_loop.simps) simp

lemma column_cells_key:
  "column_cells df 1 a (length (df_rows df)) = drop a (key_column df)"
  by (simp add: column_cells_def key_column_def drop_map)

lemma key_column_nth:
  "i < length (df_rows df) \<Longrightarrow> df_at df i 1 = key_column df ! i"
  by (simp add: key_column_def)

lemma cell_str_blank: "is_blank v \<Longrightarrow> cell_str v = []"
  by (auto simp: is_blank_def cell_str_def isna_def notna_def)

lemma loop_body_other:
  "cell_str (df_at df i 1) \<notin> TARGET_WITH_ABBREVIATION \<union> TARGET_WITHOUT_ABBREVIATION \<Longrightarrow>
   loop_body df i results = Inr (i + 1, results)"
  by (simp add: loop_body_def Let_def)

lemma loop_body_without:
  assumes "cell_str (df_at df i 1) = cat" "cat \<in> TARGET_WITHOUT_ABBREVIATION"
  shows "loop_body df i results =
    Inr (Suc i + length (takeWhile (\<lambda>v. \<not> is_blank v) (column_cells df 1 (Suc i) (length (df_rows df)))),
         dict_set results cat
           (kept (takeWhile (\<lambda>v. \<not> is_blank v) (column_cells df 1 (Suc i) (length (df_rows df))))))"
proof -
  from assms(2) have f: "cat \<in> FIRST_BLANK_STOP" and w: "cat \<notin> TARGET_WITH_ABBREVIATION"
    by (auto simp: TARGET_WITHOUT_ABBREVIATION_def FIRST_BLANK_STOP_def
          TARGET_WITH_ABBREVIATION_def)
  show ?thesis
    using assms w by (simp add: loop_body_def Let_def choose_column_def scan_run_first [OF f])
qed


section \<open>The abbreviation column\<close>

lemma find_enumerate:
  "map_option fst (find (\<lambda>(idx, v). P v) (enumerate n vs)) =
     (if \<exists>v\<in>set vs. P v then Some (n + length (takeWhile (\<lambda>v. \<not> P v) vs)) else None)"
proof (induction vs arbitrary: n)
  case Nil
  show ?case by simp
next
  case (Cons a vs)
  show ?case
  proof (cases "P a")
    case True
    then show ?thesis by simp
  next
    case False
    then show ?thesis by (simp add: Cons.IH [of "Suc n"])
  qed
qed

lemma abbrev_index_eq:
  "abbrev_index vs =
     (if \<exists>v\<in>set vs. is_candidate v
      then Some (length (takeWhile (\<lambda>v. \<not> is_candidate v) vs)) else None)"
  by (simp add: abbrev_index_def find_enumerate)

lemma abbrev_index_map:
  "abbrev_index vs =
     (if True \<in> set (map is_candidate vs)
      then Some (length (takeWhile Not (map is_candidate vs))) else None)"
proof -
  have "length (takeWhile (\<lambda>v. \<not> is_candidate v) vs)
        = length (takeWhile Not (map is_candidate vs))"
    by (simp add: takeWhile_map comp_def)
  moreover have "(\<exists>v\<in>set vs. is_candidate v) \<longleftrightarrow> True \<in> set (map is_candidate vs)"
    by (simp add: image_iff)
  ultimately show ?thesis by (simp only: abbrev_index_eq)
qed


lemma abbrev_index_Some_iff:
  "abbrev_index vs = Some c \<longleftrightarrow>
     c < length vs \<and> is_candidate (vs ! c) \<and> (\<forall>k<c. \<not> is_candidate (vs ! k))"
proof
  assume "abbrev_index vs = Some c"
  then have ex: "\<exists>v\<in>set vs. is_candidate v"
    and c: "c = length (takeWhile (\<lambda>v. \<not> is_candidate v) vs)"
    by (auto simp: abbrev_index_eq split: if_splits)
  from ex have lt: "c < length vs"
  proof -
    from ex have "takeWhile (\<lambda>v. \<not> is_candidate v) vs \<noteq> vs"
      by (simp add: takeWhile_eq_all_conv)
    then have "length (takeWhile (\<lambda>v. \<not> is_candidate v) vs) \<noteq> length vs"
      by (metis takeWhile_eq_take take_all_iff length_takeWhile_le)
    with length_takeWhile_le [of "\<lambda>v. \<not> is_candidate v" vs] show ?thesis
      unfolding c by simp
  qed
  have "is_candidate (vs ! c)"
    using nth_length_takeWhile [of "\<lambda>v. \<not> is_candidate v" vs] lt c by simp
  moreover have "\<not> is_candidate (vs ! k)" if "k < c" for k
  proof -
    let ?t = "takeWhile (\<lambda>v. \<not> is_candidate v) vs"
    from that c have "?t ! k \<in> set ?t" by simp
    then have "\<not> is_candidate (?t ! k)" by (rule set_takeWhileD [THEN conjunct2])
    moreover from that c have "?t ! k = vs ! k" by (simp add: takeWhile_nth)
    ultimately show ?thesis by simp
  qed
  ultimately show "c < length vs \<and> is_candidate (vs ! c) \<and> (\<forall>k<c. \<not> is_candidate (vs ! k))"
    using lt by blast
next
  assume a: "c < length vs \<and> is_candidate (vs ! c) \<and> (\<forall>k<c. \<not> is_candidate (vs ! k))"
  then have "takeWhile (\<lambda>v. \<not> is_candidate v) vs = take c vs"
    by (intro takeWhile_eq_take_P_nth) auto
  moreover from a have "\<exists>v\<in>set vs. is_candidate v"
    using nth_mem by blast
  ultimately show "abbrev_index vs = Some c"
    using a by (simp add: abbrev_index_eq)
qed


section \<open>Runs as stretches of a column\<close>

lemma column_cells_length: "length (column_cells df c a b) = b - a"
  by (simp add: column_cells_def)

lemma column_cells_nth: "a + m < b \<Longrightarrow> column_cells df c a b ! m = df_at df (a + m) c"
proof -
  assume lt: "a + m < b"
  then have "m < length [a..<b]" by simp
  then have "column_cells df c a b ! m = df_at df ([a..<b] ! m) c"
    unfolding column_cells_def by (rule nth_map)
  also from lt have "[a..<b] ! m = a + m" by (rule nth_upt)
  finally show ?thesis .
qed

lemma kept_nonblank:
  "\<forall>v\<in>set vs. \<not> is_blank v \<Longrightarrow>
   kept vs = map (\<lambda>v. strip (py_str v)) (filter (\<lambda>v. v \<noteq> Str ''?'') vs)"
  unfolding kept_def by (rule arg_cong [where f = "map _"], rule filter_cong) auto

lemma first_in_targets:
  "cat \<in> FIRST_BLANK_STOP \<Longrightarrow> cat \<in> TARGET_WITH_ABBREVIATION \<union> TARGET_WITHOUT_ABBREVIATION"
  by (auto simp: FIRST_BLANK_STOP_def TARGET_WITH_ABBREVIATION_def TARGET_WITHOUT_ABBREVIATION_def)

lemma choose_column_iff:
  assumes "cat \<in> TARGET_WITH_ABBREVIATION"
  shows "choose_column df i cat = Inr c \<longleftrightarrow>
     c < df_ncols df \<and> is_candidate (df_at df i c) \<and> (\<forall>k<c. \<not> is_candidate (df_at df i k))"
proof -
  have "choose_column df i cat = Inr c \<longleftrightarrow> abbrev_index (row_values df i) = Some c"
    using assms by (simp add: choose_column_def split: option.splits)
  also have "\<dots> \<longleftrightarrow> c < length (row_values df i) \<and> is_candidate (row_values df i ! c)
      \<and> (\<forall>k<c. \<not> is_candidate (row_values df i ! k))"
    by (rule abbrev_index_Some_iff)
  also have "\<dots> \<longleftrightarrow> c < df_ncols df \<and> is_candidate (df_at df i c)
      \<and> (\<forall>k<c. \<not> is_candidate (df_at df i k))"
    by (auto simp: row_values_def)
  finally show ?thesis .
qed

text \<open>
  At a marker row of a first-blank-stop category the run is the longest stretch of
  non-blank cells of the value column after the marker: the cursor moves to the first
  blank (or to the end of the table), and the list stored is the stripped text of the
  cells of the stretch whose value as read is not \<open>"?"\<close>.
\<close>

lemma loop_body_first_blank:
  assumes cat: "cat \<in> FIRST_BLANK_STOP"
    and lt: "i < length (df_rows df)"
    and marker: "cell_str (df_at df i 1) = cat"
    and col: "choose_column df i cat = Inr c"
    and run: "run = takeWhile (\<lambda>v. \<not> is_blank v) (column_cells df c (i + 1) (length (df_rows df)))"
    and j: "j = i + 1 + length run"
  shows "loop_body df i results =
           Inr (j, dict_set results cat
                     (map (\<lambda>v. strip (py_str v)) (filter (\<lambda>v. v \<noteq> Str ''?'') run)))
         \<and> j \<le> length (df_rows df)
         \<and> run = column_cells df c (i + 1) j
         \<and> (\<forall>k. i < k \<and> k < j \<longrightarrow> \<not> is_blank (df_at df k c))
         \<and> (j < length (df_rows df) \<longrightarrow> is_blank (df_at df j c))"
proof -
  let ?n = "length (df_rows df)"
  let ?cells = "column_cells df c (i + 1) ?n"
  have nb: "\<forall>v\<in>set run. \<not> is_blank v"
    unfolding run by (auto dest: set_takeWhileD)
  have len: "length run \<le> ?n - (i + 1)"
    unfolding run using length_takeWhile_le [of _ ?cells] by (simp add: column_cells_length)
  with lt have jn: "j \<le> ?n" unfolding j by simp
  have tk: "run = take (length run) ?cells"
    unfolding run by (rule takeWhile_eq_take)
  have "i + 1 + length run \<le> ?n"
    using jn unfolding j .
  then have "take (length run) [i + 1..<?n] = [i + 1..<i + 1 + length run]"
    by (rule take_upt)
  then have "take (length run) ?cells = column_cells df c (i + 1) (i + 1 + length run)"
    unfolding column_cells_def by (simp only: take_map)
  with tk have cells: "run = column_cells df c (i + 1) j"
    unfolding j by simp
  have body: "loop_body df i results = Inr (j, dict_set results cat (kept run))"
    using marker col first_in_targets [OF cat]
    by (simp add: loop_body_def Let_def scan_run_first [OF cat] run j)
  have mid: "\<not> is_blank (df_at df k c)" if "i < k" "k < j" for k
  proof -
    from that have m: "k - (i + 1) < length run" unfolding j by simp
    then have "run ! (k - (i + 1)) \<in> set run" by simp
    moreover have "run ! (k - (i + 1)) = df_at df k c"
      using that jn m by (subst cells) (simp add: column_cells_nth)
    ultimately show ?thesis using nb by auto
  qed
  have stop: "is_blank (df_at df j c)" if "j < ?n"
  proof -
    from that have "length run < length ?cells" unfolding j by (simp add: column_cells_length)
    then have "\<not> \<not> is_blank (?cells ! length run)"
      unfolding run by (rule nth_length_takeWhile)
    moreover have "?cells ! length run = df_at df j c"
      using that unfolding j by (simp add: column_cells_nth)
    ultimately show ?thesis by simp
  qed
  from body have "loop_body df i results =
      Inr (j, dict_set results cat
                (map (\<lambda>v. strip (py_str v)) (filter (\<lambda>v. v \<noteq> Str ''?'') run)))"
    by (simp only: kept_nonblank [OF nb])
  with jn cells mid stop show ?thesis
    by blast
qed

section \<open>The legend as a dictionary\<close>








section \<open>Properties of the legend parser and the folder namer\<close>

text \<open>
  C1. For every table with at least two columns whose key column (index 1) holds, in
  row order, "Device Name", "Alpha", a blank, "Coolant", "X", "?", "Y" and a blank,
  whatever the other columns hold, \<open>read_legend\<close> returns the legend
  \<open>{"Device Name": ["Alpha"], "Coolant": ["X", "Y"]}\<close>, its keys in this order: the
  "?" cell is dropped and each run ends at its blank. A blank is a missing cell or a
  string that strips to the empty string.
\<close>

theorem read_legend_scenario:
  assumes cols: "2 \<le> df_ncols df"
    and key: "key_column df = [Str ''Device Name'', Str ''Alpha'', b1, Str ''Coolant'',
                 Str ''X'', Str ''?'', Str ''Y'', b2]"
    and b1: "is_blank b1" and b2: "is_blank b2"
  shows "read_legend df =
           Some (Inr [(''Device Name'', [''Alpha'']), (''Coolant'', [''X'', ''Y''])])"
proof -
  have n: "length (df_rows df) = 8"
    using arg_cong [OF key, of length] by (simp add: key_column_def)
  have nb: "\<not> is_blank (Str ''Alpha'')" "\<not> is_blank (Str ''X'')" "\<not> is_blank (Str ''?'')"
    "\<not> is_blank (Str ''Y'')"
    by (simp_all add: is_blank_def isna_def strip_def isspace_def)
  have st: "strip ''Alpha'' = ''Alpha''" "strip ''X'' = ''X''" "strip ''Y'' = ''Y''"
    by (simp_all add: strip_def isspace_def)
  have cs: "cell_str (Str ''Device Name'') = ''Device Name''"
    "cell_str (Str ''Coolant'') = ''Coolant''"
    by (simp_all add: cell_str_def notna_def strip_def isspace_def)
  have mem: "''Device Name'' \<in> TARGET_WITHOUT_ABBREVIATION"
    "''Coolant'' \<in> TARGET_WITHOUT_ABBREVIATION"
    by (simp_all add: TARGET_WITHOUT_ABBREVIATION_def)
  have emp: "[] \<notin> TARGET_WITH_ABBREVIATION \<union> TARGET_WITHOUT_ABBREVIATION"
    by (simp add: TARGET_WITHOUT_ABBREVIATION_def TARGET_WITH_ABBREVIATION_def)
  have r0: "loop_body df 0 [] = Inr (2, [(''Device Name'', [''Alpha''])])"
    using loop_body_without [of df 0 "''Device Name''" "[]"] mem(1) cs(1) b1 nb key
    by (simp del: One_nat_def
          add: key_column_nth n column_cells_key [of df, unfolded n] kept_def st)
  have r2: "loop_body df 2 [(''Device Name'', [''Alpha''])]
             = Inr (3, [(''Device Name'', [''Alpha''])])"
    using loop_body_other [of df 2] emp b1 key
    by (simp del: One_nat_def add: key_column_nth n cell_str_blank)
  have r3: "loop_body df 3 [(''Device Name'', [''Alpha''])]
             = Inr (7, [(''Device Name'', [''Alpha'']), (''Coolant'', [''X'', ''Y''])])"
    using loop_body_without [of df 3 "''Coolant''" "[(''Device Name'', [''Alpha''])]"]
      mem(2) cs(2) b2 nb key
    by (simp del: One_nat_def
          add: key_column_nth n column_cells_key [of df, unfolded n] kept_def st)
  have r7: "loop_body df 7 [(''Device Name'', [''Alpha'']), (''Coolant'', [''X'', ''Y''])]
             = Inr (8, [(''Device Name'', [''Alpha'']), (''Coolant'', [''X'', ''Y''])])"
    using loop_body_other [of df 7] emp b2 key
    by (simp del: One_nat_def add: key_column_nth n cell_str_blank)
  have "read_loop df 0 [] = read_loop df 2 [(''Device Name'', [''Alpha''])]"
    using r0 by (simp add: read_loop_step n)
  also have "\<dots> = read_loop df 3 [(''Device Name'', [''Alpha''])]"
    using r2 by (simp add: read_loop_step n)
  also have "\<dots> = read_loop df 7 [(''Device Name'', [''Alpha'']), (''Coolant'', [''X'', ''Y''])]"
    using r3 by (simp add: read_loop_step n)
  also have "\<dots> = read_loop df 8 [(''Device Name'', [''Alpha'']), (''Coolant'', [''X'', ''Y''])]"
    using r7 by (simp add: read_loop_step n)
  also have "\<dots> = Some (Inr [(''Device Name'', [''Alpha'']), (''Coolant'', [''X'', ''Y''])])"
    by (simp add: read_loop_done n)
  finally show ?thesis using cols by (simp add: read_legend_def)
qed

theorem read_legend_scenario_witness:
  "read_legend legend_table =
     Some (Inr [(''Device Name'', [''Alpha'']), (''Coolant'', [''X'', ''Y''])])"
proof -
  have k: "key_column legend_table = [Str ''Device Name'', Str ''Alpha'', NaN, Str ''Coolant'',
                 Str ''X'', Str ''?'', Str ''Y'', Str '''']"
    by code_simp
  have c: "2 \<le> df_ncols legend_table" by (simp add: legend_table_def)
  have b: "is_blank NaN" "is_blank (Str '''')"
    by (simp_all add: is_blank_def isna_def strip_def)
  show ?thesis by (rule read_legend_scenario [OF c k b])
qed

text \<open>
  C2. The inner loop compares the cell as read with \<open>"?"\<close>, not its stripped text. On
  the table whose key column is "Device Name", " ?" (a question mark after a space)
  and a blank, the cell strips to \<open>"?"\<close>, is not blank, is not equal to \<open>"?"\<close>, and
  lands in the option list as \<open>"?"\<close>.
\<close>

theorem padded_placeholder_kept:
  "strip '' ?'' = ''?'' \<and>
   read_legend padded_placeholder_table = Some (Inr [(''Device Name'', [''?''])])"
  by code_simp

text \<open>
  C5. For every table with fewer than two columns, \<open>read_legend\<close> raises the
  \<open>ValueError\<close> about the missing columns and returns no legend.
\<close>

theorem read_legend_too_few_columns:
  "df_ncols df < 2 \<Longrightarrow> read_legend df = Some (Inl TooFewColumns)"
  by (simp add: read_legend_def)

theorem read_legend_too_few_columns_witness:
  "df_ncols one_column_table < 2 \<and> read_legend one_column_table = Some (Inl TooFewColumns)"
proof -
  have c: "df_ncols one_column_table < 2" by (simp add: one_column_table_def)
  from c read_legend_too_few_columns [OF c] show ?thesis by simp
qed

text \<open>
  C8. For every list of selections and every time and server string, the directory
  name is the selections in their order, each followed by an underscore, then the
  stripped time, an underscore and the stripped server: the underscore join of the
  selections, the stripped time and the stripped server. Selections "Alpha", "X"
  with time " 2025-07-23_14-00 " and server "Server01 " give
  "Alpha_X_2025-07-23_14-00_Server01".
\<close>

theorem folder_name_join:
  "folder_name selections time_str server_str =
     concat (map (\<lambda>s. s @ ''_'') selections) @ strip time_str @ ''_'' @ strip server_str
   \<and> folder_name [''Alpha'', ''X''] '' 2025-07-23_14-00 '' ''Server01 ''
       = ''Alpha_X_2025-07-23_14-00_Server01''"
  by (simp add: folder_name_def join_snoc2 strip_def isspace_def)

text \<open>
  C3. For every category of the second-blank-stop set, the run started after a marker
  row \<open>i\<close> ends at the row \<open>j\<close> of the second blank cell of the value column: \<open>j\<close> is
  blank and exactly one blank lies in the rows between the marker and \<open>j\<close>, wherever
  it lies, so the count is cumulative and values after the first blank do not reset
  it. When the rows after the marker hold at most one blank the run goes on to the end
  of the table. The option list is what the run keeps of the rows it passed, on both
  sides of the first blank.
\<close>

theorem second_blank_stop_run:
  assumes cat: "cat \<in> SECOND_BLANK_STOP"
    and lt: "i < length (df_rows df)"
    and run: "scan_run df c cat [] 0 (i + 1) = (vals, j)"
  shows "i < j \<and> j \<le> length (df_rows df)
         \<and> (j < length (df_rows df) \<longrightarrow>
               is_blank (df_at df j c) \<and> blank_count df c (i + 1) j = 1)
         \<and> (j = length (df_rows df) \<longrightarrow> blank_count df c (i + 1) j \<le> 1)
         \<and> vals = kept (column_cells df c (i + 1) j)"
  using scan_run_second [OF cat, of 0 "i + 1" df c "[]" vals j] lt run
  by (auto split: if_splits)

theorem second_blank_stop_run_witness:
  "scan_run abbreviation_table 3 ''Frame Version'' [] 0 (0 + 1) = ([''F1'', ''F2''], 4)
   \<and> is_blank (df_at abbreviation_table 4 3)
   \<and> blank_count abbreviation_table 3 (0 + 1) 4 = 1
   \<and> scan_run single_blank_table 2 ''Core Version'' [] 0 (0 + 1) = ([''C1'', ''C2'', ''C3''], 5)
   \<and> blank_count single_blank_table 2 (0 + 1) 5 \<le> 1"
proof -
  have cat: "''Frame Version'' \<in> SECOND_BLANK_STOP" "''Core Version'' \<in> SECOND_BLANK_STOP"
    by (simp_all add: SECOND_BLANK_STOP_def)
  have lt: "0 < length (df_rows abbreviation_table)" "0 < length (df_rows single_blank_table)"
    by (simp_all add: abbreviation_table_def single_blank_table_def)
  have a: "scan_run abbreviation_table 3 ''Frame Version'' [] 0 (0 + 1) = ([''F1'', ''F2''], 4)"
    by code_simp
  have b: "scan_run single_blank_table 2 ''Core Version'' [] 0 (0 + 1) = ([''C1'', ''C2'', ''C3''], 5)"
    by code_simp
  have n: "length (df_rows abbreviation_table) = 9" "length (df_rows single_blank_table) = 5"
    by (simp_all add: abbreviation_table_def single_blank_table_def)
  from second_blank_stop_run [OF cat(1) lt(1) a] second_blank_stop_run [OF cat(2) lt(2) b] a b n
  show ?thesis by simp
qed

text \<open>
  C4. For a category of the first-blank-stop set the scan stops at the first blank of
  the value column, but the list stored is not free of the placeholder: the test
  \<open>v != "?"\<close> is on the cell as read. In the table whose key column is "Coolant", "X",
  "? " (a question mark before a space), "Y", a blank and "Z", the cell "? " strips to
  \<open>"?"\<close>; the body of the loop at the marker row moves the cursor to row 4, the first
  blank, and stores \<open>["X", "?", "Y"]\<close> under "Coolant", and that is the legend
  \<open>read_legend\<close> returns.
\<close>

theorem first_blank_stop_padded_placeholder:
  "''Coolant'' \<in> FIRST_BLANK_STOP
   \<and> strip ''? '' = ''?''
   \<and> loop_body padded_coolant_table 0 [] = Inr (4, [(''Coolant'', [''X'', ''?'', ''Y''])])
   \<and> is_blank (df_at padded_coolant_table 4 1)
   \<and> read_legend padded_coolant_table = Some (Inr [(''Coolant'', [''X'', ''?'', ''Y''])])"
  by code_simp




text \<open>
  C7. At the marker row of a with-abbreviation category the value column is the
  column of the first string cell whose stripped text is "Abbreviation" or
  "Abbrevation"; both spellings are accepted, and a header cell with the misspelling
  selects the column that the same cell with the right spelling selects.
\<close>

theorem abbreviation_column:
  "(cat \<in> TARGET_WITH_ABBREVIATION \<longrightarrow>
      (choose_column df i cat = Inr c \<longleftrightarrow>
         c < df_ncols df \<and> is_candidate (df_at df i c)
         \<and> (\<forall>k<c. \<not> is_candidate (df_at df i k))))
   \<and> (is_candidate (Str s) \<longleftrightarrow> strip s = ''Abbreviation'' \<or> strip s = ''Abbrevation'')
   \<and> (strip s1 = ''Abbrevation'' \<and> strip s2 = ''Abbreviation'' \<longrightarrow>
        abbrev_index (vs[k := Str s1]) = abbrev_index (vs[k := Str s2]))"
proof (intro conjI impI)
  assume "cat \<in> TARGET_WITH_ABBREVIATION"
  then show "choose_column df i cat = Inr c \<longleftrightarrow>
         c < df_ncols df \<and> is_candidate (df_at df i c)
         \<and> (\<forall>k<c. \<not> is_candidate (df_at df i k))"
    by (rule choose_column_iff)
next
  show "is_candidate (Str s) \<longleftrightarrow> strip s = ''Abbreviation'' \<or> strip s = ''Abbrevation''"
    by (simp add: is_candidate_def candidates_def)
next
  assume a: "strip s1 = ''Abbrevation'' \<and> strip s2 = ''Abbreviation''"
  then have c: "is_candidate (Str s1)" "is_candidate (Str s2)"
    by (simp_all add: is_candidate_def candidates_def)
  have "map is_candidate (vs[k := Str s1]) = map is_candidate (vs[k := Str s2])"
    using c by (simp add: map_update)
  then show "abbrev_index (vs[k := Str s1]) = abbrev_index (vs[k := Str s2])"
    by (simp only: abbrev_index_map)
qed

theorem abbreviation_column_witness:
  "choose_column abbreviation_table 0 ''Frame Version'' = Inr 3
   \<and> is_candidate (df_at abbreviation_table 0 3)
   \<and> df_at abbreviation_table 0 3 = Str ''Abbrevation ''
   \<and> abbrev_index ((row_values abbreviation_table 0)[3 := Str ''Abbreviation'']) = Some 3"
proof -
  have cat: "''Frame Version'' \<in> TARGET_WITH_ABBREVIATION"
    by (simp add: TARGET_WITH_ABBREVIATION_def)
  have col: "choose_column abbreviation_table 0 ''Frame Version'' = Inr 3"
    by code_simp
  have cell: "df_at abbreviation_table 0 3 = Str ''Abbrevation ''"
    by code_simp
  have s: "strip ''Abbrevation '' = ''Abbrevation'' \<and> strip ''Abbreviation'' = ''Abbreviation''"
    by code_simp
  have row: "(row_values abbreviation_table 0)[3 := Str ''Abbrevation '']
               = row_values abbreviation_table 0"
    by code_simp
  have idx: "abbrev_index (row_values abbreviation_table 0) = Some 3"
    by code_simp
  from abbreviation_column [of "''Frame Version''" abbreviation_table 0 3 "''Abbrevation ''"
      "''Abbrevation ''" "''Abbreviation''" "row_values abbreviation_table 0" 3]
    cat col cell s row idx
  show ?thesis by simp
qed






end
